theory Spec2Isabelle
  imports Main "HOL-Library.Char_ord" "HOL-Library.List_Lexorder"
begin

section \<open>Media classifier\<close>

text \<open>
  File names are byte strings. \<open>toLowerCase\<close> folds the ASCII letters; no character
  outside ASCII lowercases to a letter of the extension lists, so the extension test of
  the source is decided by the ASCII fold alone.
\<close>

definition SUPPORTED_IMAGE_TYPES :: "string list" where
  "SUPPORTED_IMAGE_TYPES = [''.jpg'', ''.jpeg'', ''.png'', ''.gif'', ''.webp'']"

definition SUPPORTED_VIDEO_TYPES :: "string list" where
  "SUPPORTED_VIDEO_TYPES = [''.mp4'', ''.mov'', ''.avi'', ''.webm'']"

definition SUPPORTED_MEDIA_TYPES :: "string list" where
  "SUPPORTED_MEDIA_TYPES = SUPPORTED_IMAGE_TYPES @ SUPPORTED_VIDEO_TYPES"

definition lower_char :: "char \<Rightarrow> char" where
  "lower_char c =
     (case map_of (zip ''ABCDEFGHIJKLMNOPQRSTUVWXYZ'' ''abcdefghijklmnopqrstuvwxyz'') c of
        Some l \<Rightarrow> l
      | None \<Rightarrow> c)"

definition toLowerCase :: "string \<Rightarrow> string" where
  "toLowerCase s = map lower_char s"

text \<open>
  \<open>path.extname\<close> of Node on a name without a path separator: the text from the last
  dot on, and the empty string when there is no dot, when the only dot is the first
  character, or when the name is \<open>..\<close>.
\<close>

definition extname :: "string \<Rightarrow> string" where
  "extname name =
     (if CHR ''.'' \<notin> set name then []
      else
        let suffix = rev (takeWhile (\<lambda>c. c \<noteq> CHR ''.'') (rev name));
            startDot = length name - length suffix - 1
        in if startDot = 0 \<or> name = ''..'' then [] else CHR ''.'' # suffix)"

definition isVideoFile :: "string \<Rightarrow> bool" where
  "isVideoFile filename \<longleftrightarrow> toLowerCase (extname filename) \<in> set SUPPORTED_VIDEO_TYPES"

definition isImageFile :: "string \<Rightarrow> bool" where
  "isImageFile filename \<longleftrightarrow> toLowerCase (extname filename) \<in> set SUPPORTED_IMAGE_TYPES"

section \<open>Tree scanner\<close>

definition MIN_FILES_PER_SESSION :: nat where
  "MIN_FILES_PER_SESSION = 2"

definition FOLDER_DEBOUNCE_DELAY :: nat where
  "FOLDER_DEBOUNCE_DELAY = 5000"

text \<open>
  What one look at a folder finds: the entries in the order in which
  \<open>fs.readdirSync\<close> returned their names; \<open>fs.statSync\<close> on an entry says
  whether it is a regular file, or throws (the entry vanished, a dangling link).
\<close>

datatype entry_kind = RegularFile | OtherEntry | StatThrows

type_synonym dirent = "string \<times> entry_kind"

datatype folder_snapshot = Missing | NotDirectory | ReadFails | Listing "dirent list"

record scan_result =
  path :: string
  files :: "string list"
  totalFiles :: nat
  isValid :: bool

definition startsWith :: "string \<Rightarrow> char \<Rightarrow> bool" where
  "startsWith item c = (case item of [] \<Rightarrow> False | x # _ \<Rightarrow> x = c)"

definition systemFolders :: "string list" where
  "systemFolders =
     [''.DS_Store'', ''.Spotlight-V100'', ''.Trashes'', ''.TemporaryItems'', ''Thumbs.db'']"

text \<open>
  The loop over the items. The second component is True when \<open>statSync\<close> threw: the
  source then leaves the loop through its \<open>catch\<close>, with the names pushed so far still
  in \<open>result.files\<close>.
\<close>

fun scan_items :: "dirent list \<Rightarrow> string list \<Rightarrow> string list \<times> bool" where
  "scan_items [] acc = (acc, False)"
| "scan_items ((item, kind) # rest) acc =
     (if startsWith item (CHR ''_'') \<or> startsWith item (CHR ''.'') then scan_items rest acc
      else if item \<in> set systemFolders then scan_items rest acc
      else case kind of
          StatThrows \<Rightarrow> (acc, True)
        | OtherEntry \<Rightarrow> scan_items rest acc
        | RegularFile \<Rightarrow>
            if toLowerCase (extname item) \<in> set SUPPORTED_MEDIA_TYPES
            then scan_items rest (acc @ [item])
            else scan_items rest acc)"

definition scanFolderTree :: "string \<Rightarrow> folder_snapshot \<Rightarrow> scan_result" where
  "scanFolderTree folderPath snap =
     (case snap of
        Listing items \<Rightarrow>
          (case scan_items items [] of
             (fs, True) \<Rightarrow>
               \<lparr>path = folderPath, files = fs, totalFiles = 0, isValid = False\<rparr>
           | (fs, False) \<Rightarrow>
               \<lparr>path = folderPath, files = fs, totalFiles = length fs,
                isValid = (length fs \<ge> MIN_FILES_PER_SESSION)\<rparr>)
      | _ \<Rightarrow> \<lparr>path = folderPath, files = [], totalFiles = 0, isValid = False\<rparr>)"

definition validateFolderConsistency :: "string \<Rightarrow> folder_snapshot \<Rightarrow> nat \<Rightarrow> bool" where
  "validateFolderConsistency folderPath snap expectedCount =
     (let currentScan = scanFolderTree folderPath snap
      in if totalFiles currentScan \<noteq> expectedCount then False
         else if totalFiles currentScan < MIN_FILES_PER_SESSION then False
         else True)"

section \<open>Persisted store\<close>

text \<open>
  The two tables of server/database.js that the reconciler writes. \<open>session_uuid\<close> is
  \<open>UNIQUE NOT NULL\<close>, so the sessions table is a map from it; the photos table keeps
  its rows in insertion order, under \<open>UNIQUE(session_uuid, photo_number)\<close> and the
  foreign key to the session (\<open>foreign_keys = ON\<close>).
\<close>

datatype session_status = Active | Completed | Deleted

record session_row =
  folder_name :: string
  layout_used :: string
  created_at :: string
  status :: session_status
  is_public :: nat
  access_token :: string
  updated_at :: string

record photo_row =
  session_uuid :: string
  photo_number :: nat
  original_path :: string
  processed_path :: string
  upload_timestamp :: string

record database =
  sessions :: "string \<rightharpoonup> session_row"
  photos :: "photo_row list"

datatype stmt =
  SelectSession | InsertSession | UpdateSession | DeletePhotos | InsertPhoto nat | Commit

datatype db_error = StatementFailed stmt | UniqueViolation | ForeignKeyViolation

section \<open>The world around one reconciliation\<close>

text \<open>
  What \<open>sharp\<close> and the file system answer for one file: whether \<open>metadata()\<close>
  resolves within the timeout and with which size, whether \<open>copyFileSync\<close> succeeds,
  and whether the thumbnail is written within the timeout.
\<close>

record media_info =
  decodes :: bool
  width :: nat
  height :: nat
  copy_ok :: bool
  thumb_ok :: bool

text \<open>
  Everything \<open>scanAndProcessSession\<close> reads from outside its arguments: the folder
  check of line 641, the listing its own rescan finds, which database statements throw,
  the clocks, the random token, and the outcome of each file-system write.
\<close>

record env =
  folder_is_directory :: bool
  final_snapshot :: folder_snapshot
  db_fault :: "stmt \<Rightarrow> bool"
  js_now :: string
  db_now :: string
  random_token :: string
  qr_write_ok :: bool
  gallery_mkdir_ok :: bool
  media :: "string \<Rightarrow> media_info"
  gallery_html_ok :: bool

datatype event =
    SessionInserted string
  | QrWritten string bool
  | SessionReactivated string bool
  | GalleryFolder string
  | Transform string nat bool
  | PhotosReplaced string nat
  | TransactionRolledBack string
  | GalleryHtml string bool

datatype outcome =
    InsufficientFiles
  | InvalidFolder
  | FinalScanFailed
  | ConsistencyFailed
  | Aborted
  | Reconciled nat

record result =
  db_after :: database
  outcome_of :: outcome
  trace :: "event list"
  session_id :: "string option"

section \<open>Paths and numbers\<close>

text \<open>\<open>path.join\<close> on a folder and a name; normalisation of the segments is left out.\<close>

definition path_join :: "string \<Rightarrow> string \<Rightarrow> string" where
  "path_join a b = a @ ''/'' @ b"

definition GALLERY_FOLDER :: string where
  "GALLERY_FOLDER = ''/app/public/gallery''"

definition digit_char :: "nat \<Rightarrow> char" where
  "digit_char d = (''0123456789'') ! d"

function string_of_nat :: "nat \<Rightarrow> string" where
  "string_of_nat n =
     (if n < 10 then [digit_char n] else string_of_nat (n div 10) @ [digit_char (n mod 10)])"
  by pat_completeness auto
termination
  by (relation "measure id") auto

definition thumbnail_name :: "nat \<Rightarrow> string" where
  "thumbnail_name photoNumber = ''photo_'' @ string_of_nat photoNumber @ ''.jpg''"

section \<open>Session reconciler\<close>

subsection \<open>The photo transaction\<close>

definition insert_photo :: "env \<Rightarrow> nat \<Rightarrow> photo_row \<Rightarrow> database \<Rightarrow> db_error + database" where
  "insert_photo e i row d =
     (if db_fault e (InsertPhoto i) then Inl (StatementFailed (InsertPhoto i))
      else if \<exists>r \<in> set (photos d).
                session_uuid r = session_uuid row \<and> photo_number r = photo_number row
        then Inl UniqueViolation
      else if sessions d (session_uuid row) = None then Inl ForeignKeyViolation
      else Inr (d\<lparr>photos := photos d @ [row]\<rparr>))"

definition new_row :: "env \<Rightarrow> string \<Rightarrow> string \<Rightarrow> string \<Rightarrow> nat \<Rightarrow> string \<Rightarrow> photo_row" where
  "new_row e sid folderPath galleryPath i photoFile =
     (let photoNumber = i + 1
      in \<lparr>session_uuid = sid, photo_number = photoNumber,
          original_path = path_join folderPath photoFile,
          processed_path = path_join galleryPath (thumbnail_name photoNumber),
          upload_timestamp = js_now e\<rparr>)"

text \<open>The \<open>for\<close> loop of the transaction body, from index \<open>i\<close> on.\<close>

fun insert_rows ::
  "env \<Rightarrow> string \<Rightarrow> string \<Rightarrow> string \<Rightarrow> nat \<Rightarrow> string list \<Rightarrow> database \<Rightarrow> db_error + database"
where
  "insert_rows e sid folderPath galleryPath i [] d = Inr d"
| "insert_rows e sid folderPath galleryPath i (photoFile # rest) d =
     (case insert_photo e i (new_row e sid folderPath galleryPath i photoFile) d of
        Inl err \<Rightarrow> Inl err
      | Inr d' \<Rightarrow> insert_rows e sid folderPath galleryPath (i + 1) rest d')"

definition delete_photos :: "string \<Rightarrow> database \<Rightarrow> database" where
  "delete_photos sid d = d\<lparr>photos := filter (\<lambda>r. session_uuid r \<noteq> sid) (photos d)\<rparr>"

definition txn_body ::
  "env \<Rightarrow> string \<Rightarrow> string \<Rightarrow> string \<Rightarrow> string list \<Rightarrow> database \<Rightarrow> db_error + (database \<times> nat)"
where
  "txn_body e sid folderPath galleryPath fs d =
     (if db_fault e DeletePhotos then Inl (StatementFailed DeletePhotos)
      else case insert_rows e sid folderPath galleryPath 0 fs (delete_photos sid d) of
          Inl err \<Rightarrow> Inl err
        | Inr d' \<Rightarrow> Inr (d', length fs))"

text \<open>
  \<open>db.transaction\<close> of better-sqlite3: the body runs between BEGIN and COMMIT, and an
  exception thrown by the body (or by the commit) rolls every statement back before it
  is thrown on.
\<close>

definition db_transaction ::
  "env \<Rightarrow> (database \<Rightarrow> db_error + (database \<times> nat)) \<Rightarrow> database \<Rightarrow> database \<times> (db_error + nat)"
where
  "db_transaction e body d =
     (case body d of
        Inl err \<Rightarrow> (d, Inl err)
      | Inr (d', n) \<Rightarrow>
          if db_fault e Commit then (d, Inl (StatementFailed Commit)) else (d', Inr n))"

definition insertPhotosTxn ::
  "env \<Rightarrow> string \<Rightarrow> string \<Rightarrow> string \<Rightarrow> string list \<Rightarrow> database \<Rightarrow> database \<times> (db_error + nat)"
where
  "insertPhotosTxn e sid folderPath galleryPath fs d =
     db_transaction e (txn_body e sid folderPath galleryPath fs) d"

subsection \<open>The per-file transform\<close>

definition small_image :: "media_info \<Rightarrow> bool" where
  "small_image m \<longleftrightarrow> width m < 100 \<or> height m < 100"

text \<open>
  One turn of the loop of lines 759--849: True when the file reaches
  \<open>validatedFiles.push\<close>. A throw anywhere in the turn is caught by the turn's own
  \<open>catch\<close> and only skips the file.
\<close>

definition transform_ok :: "(string \<Rightarrow> media_info) \<Rightarrow> string \<Rightarrow> bool" where
  "transform_ok med photoFile =
     (let m = med photoFile
      in if isVideoFile photoFile then copy_ok m \<and> thumb_ok m
         else if isImageFile photoFile then
           (if \<not> decodes m then False
            else if small_image m then False
            else if toLowerCase (extname photoFile) = ''.gif'' then copy_ok m \<and> thumb_ok m
            else thumb_ok m)
         else False)"

fun validate_loop ::
  "(string \<Rightarrow> media_info) \<Rightarrow> string list \<Rightarrow> string list \<Rightarrow> event list \<Rightarrow> string list \<times> event list"
where
  "validate_loop med [] validatedFiles tr = (validatedFiles, tr)"
| "validate_loop med (photoFile # rest) validatedFiles tr =
     (let photoNumber = length validatedFiles + 1;
          ok = transform_ok med photoFile
      in validate_loop med rest
           (if ok then validatedFiles @ [photoFile] else validatedFiles)
           (tr @ [Transform photoFile photoNumber ok]))"


subsection \<open>scanAndProcessSession\<close>

definition new_session :: "env \<Rightarrow> string \<Rightarrow> session_row" where
  "new_session e sessionFolderName =
     \<lparr>folder_name = sessionFolderName, layout_used = ''none'', created_at = js_now e,
      status = Active, is_public = 0, access_token = random_token e,
      updated_at = db_now e\<rparr>"

text \<open>Lines 663--709: look the session up, insert it or set it active again.\<close>

definition resolve_session ::
  "env \<Rightarrow> string \<Rightarrow> string \<Rightarrow> database \<Rightarrow> db_error + (database \<times> event list)"
where
  "resolve_session e sessionFolderName folderPath d =
     (let sessionId = sessionFolderName
      in if db_fault e SelectSession then Inl (StatementFailed SelectSession)
         else case sessions d sessionId of
             None \<Rightarrow>
               if db_fault e InsertSession then Inl (StatementFailed InsertSession)
               else Inr (d\<lparr>sessions := (sessions d)(sessionId \<mapsto> new_session e sessionFolderName)\<rparr>,
                         [SessionInserted sessionId,
                          QrWritten (path_join folderPath ''_qrcode.png'') (qr_write_ok e)])
           | Some row \<Rightarrow>
               if db_fault e UpdateSession then Inr (d, [SessionReactivated sessionId False])
               else Inr (d\<lparr>sessions := (sessions d)(sessionId \<mapsto>
                              row\<lparr>status := Active, updated_at := db_now e\<rparr>)\<rparr>,
                         [SessionReactivated sessionId True]))"

text \<open>Lines 647--657: the list the loop works on, the caller's or the fresher one.\<close>

definition effective_files :: "env \<Rightarrow> string \<Rightarrow> string list \<Rightarrow> string list" where
  "effective_files e folderPath photoFiles =
     (let finalScan = scanFolderTree folderPath (final_snapshot e)
      in if totalFiles finalScan \<noteq> length photoFiles then files finalScan else photoFiles)"

definition scanAndProcessSession ::
  "env \<Rightarrow> string \<Rightarrow> string \<Rightarrow> string list \<Rightarrow> database \<Rightarrow> result"
where
  "scanAndProcessSession e sessionFolderName folderPath photoFiles d =
     (if length photoFiles < MIN_FILES_PER_SESSION then
        \<lparr>db_after = d, outcome_of = InsufficientFiles, trace = [], session_id = None\<rparr>
      else if \<not> folder_is_directory e then
        \<lparr>db_after = d, outcome_of = InvalidFolder, trace = [], session_id = None\<rparr>
      else if totalFiles (scanFolderTree folderPath (final_snapshot e)) < MIN_FILES_PER_SESSION then
        \<lparr>db_after = d, outcome_of = FinalScanFailed, trace = [], session_id = None\<rparr>
      else
        let fs = effective_files e folderPath photoFiles;
            sessionId = sessionFolderName
        in case resolve_session e sessionFolderName folderPath d of
            Inl err \<Rightarrow>
              \<lparr>db_after = d, outcome_of = Aborted, trace = [], session_id = Some sessionId\<rparr>
          | Inr (d1, tr1) \<Rightarrow>
              let galleryPath = path_join GALLERY_FOLDER sessionId
              in if \<not> gallery_mkdir_ok e then
                   \<lparr>db_after = d1, outcome_of = Aborted, trace = tr1, session_id = Some sessionId\<rparr>
                 else
                   case validate_loop (media e) fs [] (tr1 @ [GalleryFolder galleryPath]) of
                     (validatedFiles, tr2) \<Rightarrow>
                       (case insertPhotosTxn e sessionId folderPath galleryPath validatedFiles d1 of
                          (d2, Inl err) \<Rightarrow>
                            \<lparr>db_after = d2, outcome_of = Aborted,
                             trace = tr2 @ [TransactionRolledBack sessionId],
                             session_id = Some sessionId\<rparr>
                        | (d2, Inr finalCount) \<Rightarrow>
                            \<lparr>db_after = d2, outcome_of = Reconciled finalCount,
                             trace = tr2 @ [PhotosReplaced sessionId finalCount,
                                            GalleryHtml sessionId (gallery_html_ok e)],
                             session_id = Some sessionId\<rparr>))"

definition session_photos :: "string \<Rightarrow> database \<Rightarrow> photo_row list" where
  "session_photos sid d = filter (\<lambda>r. session_uuid r = sid) (photos d)"


text \<open>The rows the transaction inserts for a list of files, numbered from \<open>i + 1\<close>.\<close>

fun rows_from :: "env \<Rightarrow> string \<Rightarrow> string \<Rightarrow> string \<Rightarrow> nat \<Rightarrow> string list \<Rightarrow> photo_row list" where
  "rows_from e sid folderPath galleryPath i [] = []"
| "rows_from e sid folderPath galleryPath i (photoFile # rest) =
     new_row e sid folderPath galleryPath i photoFile
       # rows_from e sid folderPath galleryPath (i + 1) rest"

subsection \<open>The debounced callback\<close>

text \<open>
  The body of the timer of \<open>processPhotoSession\<close> (lines 882--916). It looks at the
  folder three times: the initial scan, the scan after the settle delay, and the scan
  inside \<open>validateFolderConsistency\<close>.
\<close>

definition debounce_callback ::
  "env \<Rightarrow> folder_snapshot \<Rightarrow> folder_snapshot \<Rightarrow> folder_snapshot \<Rightarrow> string \<Rightarrow> string \<Rightarrow> database \<Rightarrow> result"
where
  "debounce_callback e snap_initial snap_final snap_validate sessionFolderName folderPath d =
     (let initialScan = scanFolderTree folderPath snap_initial
      in if totalFiles initialScan < MIN_FILES_PER_SESSION then
           \<lparr>db_after = d, outcome_of = InsufficientFiles, trace = [], session_id = None\<rparr>
         else
           let finalScan = scanFolderTree folderPath snap_final
           in if \<not> validateFolderConsistency folderPath snap_validate (totalFiles initialScan) then
                \<lparr>db_after = d, outcome_of = ConsistencyFailed, trace = [], session_id = None\<rparr>
              else scanAndProcessSession e sessionFolderName folderPath (files finalScan) d)"

section \<open>Thumbnail geometry\<close>

text \<open>
  The options the reconciler hands to \<open>sharp(...).resize\<close> for the thumbnail of a
  file (lines 813--834): none for a video, whose thumbnail is a synthesized placeholder,
  and the same box and fit for a GIF and for any other image.
\<close>

datatype fit = Cover | Contain | Fill | Inside | Outside

record resize_options =
  box_width :: nat
  box_height :: nat
  fit_mode :: fit

definition thumbnail_options :: "string \<Rightarrow> resize_options option" where
  "thumbnail_options photoFile =
     (if isVideoFile photoFile then None
      else if isImageFile photoFile then
        (if toLowerCase (extname photoFile) = ''.gif''
         then Some \<lparr>box_width = 1920, box_height = 1080, fit_mode = Cover\<rparr>
         else Some \<lparr>box_width = 1920, box_height = 1080, fit_mode = Cover\<rparr>)
      else None)"

text \<open>The options of the gallery route (server/routes/photos.js, lines 195 and 201).\<close>

definition gallery_route_resize :: resize_options where
  "gallery_route_resize = \<lparr>box_width = 1920, box_height = 1080, fit_mode = Inside\<rparr>"

text \<open>
  The part of a \<open>w\<close> by \<open>h\<close> source, in source pixels, that the output shows. As the
  table of resize modes in the deployment notes of the repository has it, \<open>cover\<close>
  scales the source until it fills the box and cuts off what overflows; the other modes
  keep the whole source.
\<close>

definition visible_source :: "resize_options \<Rightarrow> nat \<times> nat \<Rightarrow> nat \<times> nat" where
  "visible_source opts src =
     (case src of (w, h) \<Rightarrow>
        (case fit_mode opts of
           Cover \<Rightarrow>
             if h * box_width opts \<le> w * box_height opts
             then (h * box_width opts div box_height opts, h)
             else (w, w * box_height opts div box_width opts)
         | _ \<Rightarrow> (w, h)))"

definition crops :: "resize_options \<Rightarrow> nat \<times> nat \<Rightarrow> bool" where
  "crops opts src \<longleftrightarrow> visible_source opts src \<noteq> src"

section \<open>Directory listings\<close>



section \<open>Debounce coordinator\<close>

text \<open>
  The module-level state of the watcher and the timers of the event loop, as a state
  machine. Time is in milliseconds. \<open>timers\<close> holds the timers \<open>setTimeout\<close> has
  armed and that have neither fired nor been cleared (identifier, folder, due time);
  all are armed with the same delay, so the list is in the order in which they fall
  due. \<open>running\<close> holds the timer callbacks that have started and not yet reached
  their \<open>finally\<close>; \<open>manual\<close> the calls of \<open>scanAndProcessSession\<close> that the
  scan-media route has started and that have not returned; \<open>scheduling\<close> the calls
  of \<open>processPhotoSession\<close> that the watcher has started under \<open>processingQueue\<close>
  and whose \<open>finally\<close> has not run; \<open>attempts\<close> logs each start of a timer
  callback with its time. A file path is the pair of its folder and its name.
\<close>

record coordinator =
  clock :: nat
  next_timer :: nat
  timers :: "(nat \<times> string \<times> nat) list"
  folderProcessingTimers :: "string \<rightharpoonup> nat"
  processingQueue :: "(string \<times> string) set"
  scheduling :: "(string \<times> string) list"
  running :: "(nat \<times> string) list"
  manual :: "string list"
  attempts :: "(string \<times> nat) list"

text \<open>
  What can happen next: the watcher's delayed handler reaches its guarded call for a
  media file (\<open>WatchBegin\<close>) and later its \<open>finally\<close> (\<open>WatchEnd\<close>); time passes
  and the timers that fall due fire (\<open>Advance\<close>); the asynchronous body of a timer
  callback comes to its end (\<open>CallbackDone\<close>); the route starts a rescan
  (\<open>ManualStart\<close>) and the rescan returns (\<open>ManualDone\<close>). Every \<open>await\<close> of the
  source is a point where the next action is the environment's choice.
\<close>

datatype action =
    WatchBegin string string
  | WatchEnd string string
  | Advance nat
  | CallbackDone nat
  | ManualStart string
  | ManualDone string

definition idle :: coordinator where
  "idle = \<lparr>clock = 0, next_timer = 0, timers = [], folderProcessingTimers = Map.empty,
           processingQueue = {}, scheduling = [], running = [], manual = [], attempts = []\<rparr>"

text \<open>\<open>clearTimeout\<close> disarms a timer; on one that has fired it does nothing.\<close>

definition clearTimeout :: "nat \<Rightarrow> coordinator \<Rightarrow> coordinator" where
  "clearTimeout tid s = s\<lparr>timers := filter (\<lambda>(i, f, due). i \<noteq> tid) (timers s)\<rparr>"

text \<open>Lines 863--924, without the logging and the quick scan that only feeds it.\<close>

definition processPhotoSession :: "string \<Rightarrow> coordinator \<Rightarrow> coordinator" where
  "processPhotoSession sessionFolderName s =
     (let s1 = (case folderProcessingTimers s sessionFolderName of
                  Some oldTimer \<Rightarrow> clearTimeout oldTimer s
                | None \<Rightarrow> s);
          timer = next_timer s1
      in s1\<lparr>timers := timers s1 @ [(timer, sessionFolderName, clock s1 + FOLDER_DEBOUNCE_DELAY)],
             next_timer := timer + 1,
             folderProcessingTimers := (folderProcessingTimers s1)(sessionFolderName \<mapsto> timer)\<rparr>)"

definition is_due :: "nat \<Rightarrow> nat \<times> string \<times> nat \<Rightarrow> bool" where
  "is_due now t = (case t of (i, f, due) \<Rightarrow> due \<le> now)"

definition advance :: "nat \<Rightarrow> coordinator \<Rightarrow> coordinator" where
  "advance t s =
     (let now = clock s + t;
          fired = filter (is_due now) (timers s)
      in s\<lparr>clock := now,
            timers := filter (\<lambda>x. \<not> is_due now x) (timers s),
            running := running s @ map (\<lambda>(i, f, due). (i, f)) fired,
            attempts := attempts s @ map (\<lambda>(i, f, due). (f, due)) fired\<rparr>)"

text \<open>The \<open>finally\<close> of the timer callback (line 914).\<close>

definition callback_finally :: "nat \<Rightarrow> coordinator \<Rightarrow> coordinator" where
  "callback_finally tid s =
     (case find (\<lambda>(i, f). i = tid) (running s) of
        None \<Rightarrow> s
      | Some (i, sessionFolderName) \<Rightarrow>
          s\<lparr>running := filter (\<lambda>(j, f). j \<noteq> tid) (running s),
            folderProcessingTimers := (folderProcessingTimers s)(sessionFolderName := None)\<rparr>)"

fun step :: "coordinator \<Rightarrow> action \<Rightarrow> coordinator" where
  "step s (WatchBegin folder fname) =
     (if (folder, fname) \<in> processingQueue s then s
      else processPhotoSession folder
             (s\<lparr>processingQueue := insert (folder, fname) (processingQueue s),
                scheduling := scheduling s @ [(folder, fname)]\<rparr>))"
| "step s (WatchEnd folder fname) =
     (if (folder, fname) \<in> set (scheduling s)
      then s\<lparr>processingQueue := processingQueue s - {(folder, fname)},
              scheduling := remove1 (folder, fname) (scheduling s)\<rparr>
      else s)"
| "step s (Advance t) = advance t s"
| "step s (CallbackDone tid) = callback_finally tid s"
| "step s (ManualStart folder) = s\<lparr>manual := manual s @ [folder]\<rparr>"
| "step s (ManualDone folder) = s\<lparr>manual := remove1 folder (manual s)\<rparr>"

definition run :: "action list \<Rightarrow> coordinator" where
  "run acts = foldl step idle acts"

definition reconciliations_in_flight :: "coordinator \<Rightarrow> string \<Rightarrow> nat" where
  "reconciliations_in_flight s folder =
     length (filter (\<lambda>(i, f). f = folder) (running s)) + count_list (manual s) folder"

text \<open>
  A burst: one watcher event per entry, each followed by the time that passes before
  the next.
\<close>

fun burst :: "string \<Rightarrow> (string \<times> nat) list \<Rightarrow> action list" where
  "burst folder [] = []"
| "burst folder ((fname, gap) # rest) =
     WatchBegin folder fname # WatchEnd folder fname # Advance gap # burst folder rest"

text \<open>
  Nothing has fired, nothing runs, and the folder has either no timer or the one timer
  its map entry names, not yet due.
\<close>

definition settled :: "string \<Rightarrow> coordinator \<Rightarrow> bool" where
  "settled folder s \<longleftrightarrow>
     attempts s = [] \<and> running s = [] \<and> processingQueue s = {} \<and> scheduling s = [] \<and>
     (case folderProcessingTimers s folder of
        None \<Rightarrow> timers s = []
      | Some tid \<Rightarrow>
          (case timers s of
             [(i, f, due)] \<Rightarrow> i = tid \<and> f = folder \<and> clock s < due
           | _ \<Rightarrow> False))"

section \<open>Example worlds\<close>

text \<open>Concrete folders, stores and environments on which the theorems are instantiated.\<close>

definition full_frame :: media_info where
  "full_frame = \<lparr>decodes = True, width = 5472, height = 3648, copy_ok = True, thumb_ok = True\<rparr>"

definition tiny_frame :: media_info where
  "tiny_frame = \<lparr>decodes = True, width = 64, height = 64, copy_ok = True, thumb_ok = True\<rparr>"

definition broken_file :: media_info where
  "broken_file = \<lparr>decodes = False, width = 0, height = 0, copy_ok = False, thumb_ok = False\<rparr>"

definition quiet_env :: "folder_snapshot \<Rightarrow> (string \<Rightarrow> media_info) \<Rightarrow> env" where
  "quiet_env snap med =
     \<lparr>folder_is_directory = True, final_snapshot = snap, db_fault = (\<lambda>_. False),
      js_now = ''2025-12-19T10:00:00.000Z'', db_now = ''2025-12-19 10:00:00'',
      random_token = ''00112233445566778899aabbccddeeff'', qr_write_ok = True,
      gallery_mkdir_ok = True, media = med, gallery_html_ok = True\<rparr>"

definition stale_row :: "string \<Rightarrow> nat \<Rightarrow> photo_row" where
  "stale_row sid n =
     \<lparr>session_uuid = sid, photo_number = n, original_path = ''old'',
      processed_path = ''old'', upload_timestamp = ''old''\<rparr>"

definition deleted_session :: "string \<Rightarrow> session_row" where
  "deleted_session name =
     \<lparr>folder_name = name, layout_used = ''none'', created_at = ''2025-12-01T08:00:00.000Z'',
      status = Deleted, is_public = 0, access_token = ''feedfacefeedfacefeedfacefeedface'',
      updated_at = ''2025-12-10 08:00:00''\<rparr>"

definition event1_listing :: folder_snapshot where
  "event1_listing =
     Listing [(''a.jpg'', RegularFile), (''b.jpg'', RegularFile), (''c.png'', RegularFile)]"

definition stale_db :: database where
  "stale_db =
     \<lparr>sessions = [''Event1'' \<mapsto> deleted_session ''Event1'', ''Other'' \<mapsto> deleted_session ''Other''],
      photos = [stale_row ''Event1'' 1, stale_row ''Other'' 1, stale_row ''Event1'' 3]\<rparr>"


definition four_files :: folder_snapshot where
  "four_files =
     Listing [(''a.jpg'', RegularFile), (''b.jpg'', RegularFile), (''c.png'', RegularFile),
              (''d.mp4'', RegularFile)]"

definition empty_db :: database where
  "empty_db = \<lparr>sessions = Map.empty, photos = []\<rparr>"



text \<open>
  Two files are reported together at time 0, a third at 5.2 s, while the callback of
  the first timer (fired at 5.0 s) is still running, and a fourth at 6.5 s, 1.3 s after
  the third. The callback of the first timer reaches its \<open>finally\<close> at 6.0 s,
  between the third and the fourth event.
\<close>

definition slow_drip :: "action list" where
  "slow_drip =
     [WatchBegin ''Event1'' ''a.jpg'', WatchEnd ''Event1'' ''a.jpg'',
      WatchBegin ''Event1'' ''b.jpg'', WatchEnd ''Event1'' ''b.jpg'',
      Advance 5200,
      WatchBegin ''Event1'' ''c.jpg'', WatchEnd ''Event1'' ''c.jpg'',
      Advance 800, CallbackDone 1,
      Advance 500,
      WatchBegin ''Event1'' ''d.jpg'', WatchEnd ''Event1'' ''d.jpg'',
      Advance 10000]"

definition five_events :: "action list" where
  "five_events =
     burst ''Event1''
       [(''1.jpg'', 1000), (''2.jpg'', 1000), (''3.jpg'', 1000), (''4.jpg'', 1000),
        (''5.jpg'', 60000)]"

definition two_rescans :: "action list" where
  "two_rescans = [ManualStart ''Event1'', ManualStart ''Event1'']"

section \<open>Properties\<close>

lemmas classifier_defs =
  isVideoFile_def isImageFile_def extname_def toLowerCase_def lower_char_def
  SUPPORTED_IMAGE_TYPES_def SUPPORTED_VIDEO_TYPES_def SUPPORTED_MEDIA_TYPES_def

lemmas scanner_defs =
  scanFolderTree_def startsWith_def systemFolders_def MIN_FILES_PER_SESSION_def
  validateFolderConsistency_def

lemmas reconciler_defs =
  scanAndProcessSession_def effective_files_def resolve_session_def new_session_def
  transform_ok_def small_image_def insertPhotosTxn_def db_transaction_def txn_body_def
  delete_photos_def insert_photo_def new_row_def path_join_def GALLERY_FOLDER_def
  thumbnail_name_def digit_char_def session_photos_def

lemmas example_defs =
  quiet_env_def full_frame_def broken_file_def stale_row_def
  deleted_session_def event1_listing_def stale_db_def

subsection \<open>The loop and the transaction\<close>

lemma fst_validate_loop:
  "fst (validate_loop med fs acc tr) = acc @ filter (transform_ok med) fs"
  by (induction fs arbitrary: acc tr) (simp_all add: Let_def)

lemma insert_photo_Inr:
  "insert_photo e i row d = Inr d' \<Longrightarrow> d' = d\<lparr>photos := photos d @ [row]\<rparr>"
  by (auto simp: insert_photo_def split: if_splits)

lemma insert_rows_Inr:
  "insert_rows e sid fp gp i fs d = Inr d' \<Longrightarrow>
   d' = d\<lparr>photos := photos d @ rows_from e sid fp gp i fs\<rparr>"
proof (induction fs arbitrary: i d)
  case Nil
  then show ?case by simp
next
  case (Cons f fs)
  from Cons.prems obtain d1 where
    a: "insert_photo e i (new_row e sid fp gp i f) d = Inr d1" and
    b: "insert_rows e sid fp gp (i + 1) fs d1 = Inr d'"
    by (auto split: sum.splits)
  from insert_photo_Inr [OF a] Cons.IH [OF b] show ?case by simp
qed

lemma rows_from_numbers:
  "map photo_number (rows_from e sid fp gp i fs) = [i + 1 ..< i + 1 + length fs]"
proof (induction fs arbitrary: i)
  case Nil
  then show ?case by simp
next
  case (Cons f fs)
  have "[i + 1 ..< i + 1 + length (f # fs)] = (i + 1) # [i + 1 + 1 ..< i + 1 + 1 + length fs]"
    by (subst upt_rec) simp
  with Cons.IH [of "i + 1"] show ?case by (simp add: new_row_def)
qed

lemma rows_from_paths:
  "map original_path (rows_from e sid fp gp i fs) = map (path_join fp) fs"
  by (induction fs arbitrary: i) (simp_all add: new_row_def)

lemma rows_from_uuid:
  "r \<in> set (rows_from e sid fp gp i fs) \<Longrightarrow> session_uuid r = sid"
  by (induction fs arbitrary: i) (auto simp: new_row_def)


lemma insertPhotosTxn_Inr:
  assumes "insertPhotosTxn e sid fp gp fs d = (d', Inr n)"
  shows "n = length fs \<and>
         d' = d\<lparr>photos := filter (\<lambda>r. session_uuid r \<noteq> sid) (photos d) @ rows_from e sid fp gp 0 fs\<rparr>"
proof -
  from assms obtain d2 where
    a: "insert_rows e sid fp gp 0 fs (delete_photos sid d) = Inr d2" and
    b: "d' = d2" "n = length fs"
    by (auto simp: insertPhotosTxn_def db_transaction_def txn_body_def
             split: if_splits sum.splits prod.splits)
  from insert_rows_Inr [OF a] b show ?thesis
    by (simp add: delete_photos_def)
qed



lemma reconciled_db:
  assumes "outcome_of (scanAndProcessSession e F fp pf d) = Reconciled N"
  shows "\<exists>d1 tr1. resolve_session e F fp d = Inr (d1, tr1) \<and>
           N = length (filter (transform_ok (media e)) (effective_files e fp pf)) \<and>
           db_after (scanAndProcessSession e F fp pf d) =
             d1\<lparr>photos := filter (\<lambda>r. session_uuid r \<noteq> F) (photos d1) @
                    rows_from e F fp (path_join GALLERY_FOLDER F) 0
                      (filter (transform_ok (media e)) (effective_files e fp pf))\<rparr>"
proof -
  let ?V = "filter (transform_ok (media e)) (effective_files e fp pf)"
  let ?gp = "path_join GALLERY_FOLDER F"
  from assms obtain d1 tr1 where r: "resolve_session e F fp d = Inr (d1, tr1)"
    by (auto simp: scanAndProcessSession_def Let_def split: if_splits sum.splits prod.splits)
  obtain V tr2 where v: "validate_loop (media e) (effective_files e fp pf) [] (tr1 @ [GalleryFolder ?gp]) = (V, tr2)"
    by (cases "validate_loop (media e) (effective_files e fp pf) [] (tr1 @ [GalleryFolder ?gp])")
  have V: "V = ?V" using fst_validate_loop [of "media e" "effective_files e fp pf" "[]" "tr1 @ [GalleryFolder ?gp]"] v by simp
  obtain d2 res where t: "insertPhotosTxn e F fp ?gp V d1 = (d2, res)"
    by (cases "insertPhotosTxn e F fp ?gp V d1")
  from assms r v t have res: "res = Inr N" and db: "db_after (scanAndProcessSession e F fp pf d) = d2"
    by (auto simp: scanAndProcessSession_def Let_def split: if_splits sum.splits)
  from insertPhotosTxn_Inr [OF t [unfolded res]] V r db show ?thesis by simp
qed

lemma session_photos_replaced:
  "session_photos F (d1\<lparr>photos := filter (\<lambda>r. session_uuid r \<noteq> F) (photos d1) @ rows_from e F fp gp 0 V\<rparr>)
     = rows_from e F fp gp 0 V"
proof -
  have "filter (\<lambda>r. session_uuid r = F) (rows_from e F fp gp 0 V) = rows_from e F fp gp 0 V"
    by (rule filter_True) (simp add: rows_from_uuid)
  moreover have "filter (\<lambda>r. session_uuid r = F) (filter (\<lambda>r. session_uuid r \<noteq> F) (photos d1)) = []"
    by (simp add: filter_empty_conv)
  ultimately show ?thesis by (simp add: session_photos_def)
qed

lemma reconciled_rows:
  assumes "outcome_of (scanAndProcessSession e F fp pf d) = Reconciled N"
  shows "map photo_number (session_photos F (db_after (scanAndProcessSession e F fp pf d))) = [1 ..< N + 1]
       \<and> N = length (filter (transform_ok (media e)) (effective_files e fp pf))
       \<and> map original_path (session_photos F (db_after (scanAndProcessSession e F fp pf d)))
           = map (path_join fp) (filter (transform_ok (media e)) (effective_files e fp pf))"
proof -
  from reconciled_db [OF assms] obtain d1 tr1 where
    n: "N = length (filter (transform_ok (media e)) (effective_files e fp pf))" and
    db: "db_after (scanAndProcessSession e F fp pf d) =
             d1\<lparr>photos := filter (\<lambda>r. session_uuid r \<noteq> F) (photos d1) @
                    rows_from e F fp (path_join GALLERY_FOLDER F) 0
                      (filter (transform_ok (media e)) (effective_files e fp pf))\<rparr>"
    by blast
  show ?thesis
    unfolding db session_photos_replaced
    using n by (simp add: rows_from_numbers rows_from_paths)
qed

subsection \<open>Dense numbering\<close>

text \<open>
  C1. A call of \<open>scanAndProcessSession\<close> that commits its transaction with
  \<open>N\<close> rows leaves, for the session, exactly the photo numbers \<open>1, ..., N\<close> in
  this order, where \<open>N\<close> is the number of files of the working list that pass the
  transform, and the row at position \<open>i\<close> points at the \<open>i\<close>-th such file.
\<close>

theorem dense_numbering:
  assumes "outcome_of (scanAndProcessSession e F fp pf d) = Reconciled N"
  shows "map photo_number (session_photos F (db_after (scanAndProcessSession e F fp pf d))) = [1 ..< N + 1]
       \<and> N = length (filter (transform_ok (media e)) (effective_files e fp pf))
       \<and> map original_path (session_photos F (db_after (scanAndProcessSession e F fp pf d)))
           = map (path_join fp) (filter (transform_ok (media e)) (effective_files e fp pf))"
  using assms by (rule reconciled_rows)

theorem dense_numbering_witness:
  "outcome_of (scanAndProcessSession
      (quiet_env event1_listing (\<lambda>f. if f = ''b.jpg'' then tiny_frame else full_frame))
      ''Event1'' ''/photos/Event1'' [''a.jpg'', ''b.jpg'', ''c.png''] stale_db) = Reconciled 2
   \<and> map photo_number (session_photos ''Event1'' (db_after (scanAndProcessSession
      (quiet_env event1_listing (\<lambda>f. if f = ''b.jpg'' then tiny_frame else full_frame))
      ''Event1'' ''/photos/Event1'' [''a.jpg'', ''b.jpg'', ''c.png''] stale_db))) = [1, 2]
   \<and> map original_path (session_photos ''Event1'' (db_after (scanAndProcessSession
      (quiet_env event1_listing (\<lambda>f. if f = ''b.jpg'' then tiny_frame else full_frame))
      ''Event1'' ''/photos/Event1'' [''a.jpg'', ''b.jpg'', ''c.png''] stale_db)))
       = [''/photos/Event1/a.jpg'', ''/photos/Event1/c.png'']"
proof -
  let ?e = "quiet_env event1_listing (\<lambda>f. if f = ''b.jpg'' then tiny_frame else full_frame)"
  have h: "outcome_of (scanAndProcessSession ?e ''Event1'' ''/photos/Event1''
             [''a.jpg'', ''b.jpg'', ''c.png''] stale_db) = Reconciled 2"
    by (simp add: classifier_defs scanner_defs reconciler_defs example_defs tiny_frame_def Let_def)
  have v: "filter (transform_ok (media ?e)) (effective_files ?e ''/photos/Event1'' [''a.jpg'', ''b.jpg'', ''c.png''])
             = [''a.jpg'', ''c.png'']"
    by (simp add: classifier_defs scanner_defs reconciler_defs example_defs tiny_frame_def Let_def)
  have u: "[1 ..< 2 + 1] = [1, 2::nat]" by (simp add: upt_rec)
  from dense_numbering [OF h] show ?thesis
    unfolding v u using h by (simp add: path_join_def)
qed




lemma image_not_video: "isImageFile f \<Longrightarrow> \<not> isVideoFile f"
  by (auto simp: isImageFile_def isVideoFile_def SUPPORTED_IMAGE_TYPES_def SUPPORTED_VIDEO_TYPES_def)

lemma image_is_media: "isImageFile f \<Longrightarrow> toLowerCase (extname f) \<in> set SUPPORTED_MEDIA_TYPES"
  by (simp add: isImageFile_def SUPPORTED_MEDIA_TYPES_def)

lemma path_join_inject: "path_join a f = path_join a g \<Longrightarrow> f = g"
  by (simp add: path_join_def)









subsection \<open>Atomic replacement of the photo rows\<close>











subsection \<open>Consistency gate\<close>

text \<open>
  C8. In the debounced callback, when the count that \<open>validateFolderConsistency\<close>
  finds differs from the count of the initial scan, or is below
  \<open>MIN_FILES_PER_SESSION\<close>, the check returns false, \<open>scanAndProcessSession\<close> is
  not called, and the store is the one the callback started with.
\<close>

theorem consistency_gate_rejects:
  assumes "totalFiles (scanFolderTree fp snap_validate) \<noteq> totalFiles (scanFolderTree fp snap_initial)
           \<or> totalFiles (scanFolderTree fp snap_validate) < MIN_FILES_PER_SESSION"
  shows "\<not> validateFolderConsistency fp snap_validate (totalFiles (scanFolderTree fp snap_initial))
       \<and> db_after (debounce_callback e snap_initial snap_final snap_validate F fp d) = d
       \<and> trace (debounce_callback e snap_initial snap_final snap_validate F fp d) = []
       \<and> session_id (debounce_callback e snap_initial snap_final snap_validate F fp d) = None"
proof -
  from assms
  have v: "\<not> validateFolderConsistency fp snap_validate (totalFiles (scanFolderTree fp snap_initial))"
    by (auto simp: validateFolderConsistency_def Let_def)
  then show ?thesis
    by (simp add: debounce_callback_def Let_def)
qed

theorem consistency_gate_rejects_witness:
  "totalFiles (scanFolderTree ''/photos/Event1'' four_files) = 4
   \<and> totalFiles (scanFolderTree ''/photos/Event1'' event1_listing) = 3
   \<and> \<not> validateFolderConsistency ''/photos/Event1'' event1_listing 4
   \<and> db_after (debounce_callback (quiet_env event1_listing (\<lambda>f. full_frame))
        four_files event1_listing event1_listing ''Event1'' ''/photos/Event1'' stale_db) = stale_db
   \<and> trace (debounce_callback (quiet_env event1_listing (\<lambda>f. full_frame))
        four_files event1_listing event1_listing ''Event1'' ''/photos/Event1'' stale_db) = []"
proof -
  have a: "totalFiles (scanFolderTree ''/photos/Event1'' four_files) = 4"
    by (simp add: four_files_def classifier_defs scanner_defs)
  have b: "totalFiles (scanFolderTree ''/photos/Event1'' event1_listing) = 3"
    by (simp add: event1_listing_def classifier_defs scanner_defs)
  have h: "totalFiles (scanFolderTree ''/photos/Event1'' event1_listing)
             \<noteq> totalFiles (scanFolderTree ''/photos/Event1'' four_files)
           \<or> totalFiles (scanFolderTree ''/photos/Event1'' event1_listing) < MIN_FILES_PER_SESSION"
    using a b by simp
  from consistency_gate_rejects [OF h, of "quiet_env event1_listing (\<lambda>f. full_frame)"
      event1_listing "''Event1''" stale_db]
  show ?thesis using a b by simp
qed

subsection \<open>Small images\<close>

text \<open>
  C9. A file whose extension is one of the supported image types and whose decoded
  width or height is below 100 pixels never reaches the validated list: a committed run
  has no row for it, and the rows it does have are numbered \<open>1, ..., N\<close> without a
  gap.
\<close>

theorem small_image_excluded:
  assumes "isImageFile f" and "small_image (media e f)"
  shows "toLowerCase (extname f) \<in> set SUPPORTED_MEDIA_TYPES
       \<and> \<not> transform_ok (media e) f
       \<and> (\<forall>N. outcome_of (scanAndProcessSession e F fp pf d) = Reconciled N \<longrightarrow>
             path_join fp f \<notin> set (map original_path
                (session_photos F (db_after (scanAndProcessSession e F fp pf d))))
             \<and> map photo_number (session_photos F (db_after (scanAndProcessSession e F fp pf d)))
                 = [1 ..< N + 1])"
proof -
  have nt: "\<not> transform_ok (media e) f"
    using assms image_not_video [of f] by (simp add: transform_ok_def Let_def)
  have "path_join fp f \<notin> set (map original_path
                (session_photos F (db_after (scanAndProcessSession e F fp pf d))))
        \<and> map photo_number (session_photos F (db_after (scanAndProcessSession e F fp pf d)))
                 = [1 ..< N + 1]"
    if r: "outcome_of (scanAndProcessSession e F fp pf d) = Reconciled N" for N
  proof -
    from reconciled_rows [OF r] have
      p: "map original_path (session_photos F (db_after (scanAndProcessSession e F fp pf d)))
           = map (path_join fp) (filter (transform_ok (media e)) (effective_files e fp pf))"
      and q: "map photo_number (session_photos F (db_after (scanAndProcessSession e F fp pf d)))
                 = [1 ..< N + 1]"
      by simp_all
    have "path_join fp f \<notin> set (map (path_join fp) (filter (transform_ok (media e)) (effective_files e fp pf)))"
      using nt by (auto dest: path_join_inject)
    with p q show ?thesis by simp
  qed
  with nt image_is_media [OF assms(1)] show ?thesis by blast
qed

theorem small_image_excluded_witness:
  "isImageFile ''b.jpg''
   \<and> small_image (media (quiet_env event1_listing (\<lambda>f. if f = ''b.jpg'' then tiny_frame else full_frame)) ''b.jpg'')
   \<and> toLowerCase (extname ''b.jpg'') \<in> set SUPPORTED_MEDIA_TYPES
   \<and> outcome_of (scanAndProcessSession
        (quiet_env event1_listing (\<lambda>f. if f = ''b.jpg'' then tiny_frame else full_frame))
        ''Event1'' ''/photos/Event1'' [''a.jpg'', ''b.jpg'', ''c.png''] empty_db) = Reconciled 2
   \<and> ''/photos/Event1/b.jpg'' \<notin> set (map original_path (session_photos ''Event1'' (db_after (scanAndProcessSession
        (quiet_env event1_listing (\<lambda>f. if f = ''b.jpg'' then tiny_frame else full_frame))
        ''Event1'' ''/photos/Event1'' [''a.jpg'', ''b.jpg'', ''c.png''] empty_db))))
   \<and> map photo_number (session_photos ''Event1'' (db_after (scanAndProcessSession
        (quiet_env event1_listing (\<lambda>f. if f = ''b.jpg'' then tiny_frame else full_frame))
        ''Event1'' ''/photos/Event1'' [''a.jpg'', ''b.jpg'', ''c.png''] empty_db))) = [1, 2]"
proof -
  let ?e = "quiet_env event1_listing (\<lambda>f. if f = ''b.jpg'' then tiny_frame else full_frame)"
  have i: "isImageFile ''b.jpg''" by (simp add: classifier_defs)
  have s: "small_image (media ?e ''b.jpg'')" by (simp add: small_image_def example_defs tiny_frame_def)
  have o: "outcome_of (scanAndProcessSession ?e ''Event1'' ''/photos/Event1''
             [''a.jpg'', ''b.jpg'', ''c.png''] empty_db) = Reconciled 2"
    by (simp add: empty_db_def classifier_defs scanner_defs reconciler_defs example_defs tiny_frame_def Let_def)
  have u: "[Suc 0 ..< 3] = [Suc 0, 2]" by (simp add: upt_rec)
  have p: "path_join ''/photos/Event1'' ''b.jpg'' = ''/photos/Event1/b.jpg''"
    by (simp add: path_join_def)
  from small_image_excluded [OF i s, of "''Event1''" "''/photos/Event1''"
      "[''a.jpg'', ''b.jpg'', ''c.png'']" empty_db] o
  show ?thesis unfolding p using i s u by simp
qed

subsection \<open>Session identity\<close>








subsection \<open>The session is settled before the transforms\<close>



subsection \<open>Thumbnails are cut to the box\<close>

text \<open>
  C4. The reconciler resizes every image, GIF or not, with \<open>fit: 'cover'\<close>. For a
  3:2 source of 5472 by 3648 pixels only 3078 of the 3648 rows reach the thumbnail: the
  rest is cut off. The gallery route, with \<open>fit: 'inside'\<close>, keeps the whole source.
\<close>

theorem thumbnail_resize_crops:
  "map_option fit_mode (thumbnail_options ''IMG_0001.jpg'') = Some Cover
   \<and> map_option fit_mode (thumbnail_options ''loop.gif'') = Some Cover
   \<and> map_option (\<lambda>opts. visible_source opts (5472, 3648)) (thumbnail_options ''IMG_0001.jpg'')
       = Some (5472, 3078)
   \<and> map_option (\<lambda>opts. crops opts (5472, 3648)) (thumbnail_options ''IMG_0001.jpg'') = Some True
   \<and> \<not> crops gallery_route_resize (5472, 3648)"
  by (simp add: thumbnail_options_def gallery_route_resize_def visible_source_def crops_def
        classifier_defs)

subsection \<open>Numbering in the order of the file names\<close>









subsection \<open>Debounce coordinator\<close>

lemmas coord_defs = run_def idle_def processPhotoSession_def clearTimeout_def advance_def
  is_due_def callback_finally_def FOLDER_DEBOUNCE_DELAY_def reconciliations_in_flight_def

lemma distinct_count_le_1: "distinct xs \<Longrightarrow> count_list xs x \<le> 1"
  by (induction xs) auto

lemma step_scheduling_inv:
  assumes "distinct (scheduling s)" "set (scheduling s) = processingQueue s"
  shows "distinct (scheduling (step s a)) \<and> set (scheduling (step s a)) = processingQueue (step s a)"
proof (cases a)
  case (WatchBegin folder fname)
  with assms show ?thesis
    by (auto simp: processPhotoSession_def clearTimeout_def Let_def split: option.splits)
next
  case (WatchEnd folder fname)
  with assms show ?thesis by auto
next
  case (Advance t)
  with assms show ?thesis by (simp add: advance_def Let_def)
next
  case (CallbackDone tid)
  with assms show ?thesis by (auto simp: callback_finally_def split: option.splits)
next
  case (ManualStart folder)
  with assms show ?thesis by simp
next
  case (ManualDone folder)
  with assms show ?thesis by simp
qed

lemma run_scheduling_inv:
  "distinct (scheduling (run acts)) \<and> set (scheduling (run acts)) = processingQueue (run acts)"
proof (induction acts rule: rev_induct)
  case Nil
  show ?case by (simp add: run_def idle_def)
next
  case (snoc a acts)
  have "run (acts @ [a]) = step (run acts) a" by (simp add: run_def)
  with snoc step_scheduling_inv [of "run acts" a] show ?case by simp
qed

text \<open>
  C6. The guard of the watcher is \<open>processingQueue\<close>, a set of file paths held while
  \<open>processPhotoSession\<close> arms the debounce timer: at every moment at most one such
  call per file path is in flight, and the set holds exactly the paths of the calls in
  flight. It does not serialise reconciliations: two manual rescans of one folder are in
  flight together.
\<close>

theorem guard_is_per_file_path:
  "count_list (scheduling (run acts)) (folder, fname) \<le> 1
   \<and> ((folder, fname) \<in> processingQueue (run acts) \<longleftrightarrow> (folder, fname) \<in> set (scheduling (run acts)))"
proof -
  from run_scheduling_inv [of acts] have d: "distinct (scheduling (run acts))"
    and q: "set (scheduling (run acts)) = processingQueue (run acts)" by simp_all
  from d have "count_list (scheduling (run acts)) (folder, fname) \<le> 1"
    by (rule distinct_count_le_1)
  with q show ?thesis by simp
qed

theorem overlapping_reconciliations_counterexample:
  "\<not> reconciliations_in_flight (run two_rescans) ''Event1'' \<le> 1"
  by (simp add: two_rescans_def coord_defs)

text \<open>
  Timer callbacks are not excluded either: a callback fires beside a manual rescan
  that is in flight, and a second callback fires while the first, five seconds on, has
  not yet come to its end.
\<close>

lemma callback_beside_manual_rescan:
  "reconciliations_in_flight
     (run [ManualStart ''Event1'', WatchBegin ''Event1'' ''a.jpg'', WatchEnd ''Event1'' ''a.jpg'',
           Advance 5000]) ''Event1'' = 2"
  by (simp add: coord_defs)

lemma two_callbacks_in_flight:
  "reconciliations_in_flight
     (run [WatchBegin ''Event1'' ''a.jpg'', WatchEnd ''Event1'' ''a.jpg'', Advance 5000,
           WatchBegin ''Event1'' ''b.jpg'', WatchEnd ''Event1'' ''b.jpg'', Advance 5000])
     ''Event1'' = 2"
  by (simp add: coord_defs)

lemma burst_append: "burst folder (xs @ ys) = burst folder xs @ burst folder ys"
  by (induction xs) auto

lemma settled_alt:
  "settled folder s \<longleftrightarrow>
     attempts s = [] \<and> running s = [] \<and> processingQueue s = {} \<and> scheduling s = [] \<and>
     (case folderProcessingTimers s folder of
        None \<Rightarrow> timers s = []
      | Some tid \<Rightarrow> (\<exists>due. timers s = [(tid, folder, due)] \<and> clock s < due))"
  by (auto simp: settled_def split: option.splits list.splits)

lemma event_arms_one_timer:
  assumes "settled folder s"
  shows "\<exists>tid. timers (step (step s (WatchBegin folder fname)) (WatchEnd folder fname))
                 = [(tid, folder, clock s + FOLDER_DEBOUNCE_DELAY)]
           \<and> folderProcessingTimers (step (step s (WatchBegin folder fname)) (WatchEnd folder fname)) folder = Some tid
           \<and> clock (step (step s (WatchBegin folder fname)) (WatchEnd folder fname)) = clock s
           \<and> attempts (step (step s (WatchBegin folder fname)) (WatchEnd folder fname)) = []
           \<and> running (step (step s (WatchBegin folder fname)) (WatchEnd folder fname)) = []
           \<and> processingQueue (step (step s (WatchBegin folder fname)) (WatchEnd folder fname)) = {}
           \<and> scheduling (step (step s (WatchBegin folder fname)) (WatchEnd folder fname)) = []"
  using assms
  by (cases "folderProcessingTimers s folder")
     (auto simp: settled_alt processPhotoSession_def clearTimeout_def Let_def)

lemma quiet_gap_keeps_settled:
  assumes "settled folder s" "gap < FOLDER_DEBOUNCE_DELAY"
  shows "settled folder (foldl step s (burst folder [(fname, gap)]))
       \<and> clock (foldl step s (burst folder [(fname, gap)])) = clock s + gap"
proof -
  let ?s2 = "step (step s (WatchBegin folder fname)) (WatchEnd folder fname)"
  from event_arms_one_timer [OF assms(1), of fname] obtain tid where
    t: "timers ?s2 = [(tid, folder, clock s + FOLDER_DEBOUNCE_DELAY)]"
       "folderProcessingTimers ?s2 folder = Some tid" "clock ?s2 = clock s"
       "attempts ?s2 = []" "running ?s2 = []" "processingQueue ?s2 = {}" "scheduling ?s2 = []"
    by blast
  have "foldl step s (burst folder [(fname, gap)]) = advance gap ?s2" by simp
  with t assms(2) show ?thesis
    by (simp add: advance_def is_due_def settled_alt Let_def)
qed

lemma quiet_burst_keeps_settled:
  assumes "settled folder s" "\<forall>ev \<in> set evs. snd ev < FOLDER_DEBOUNCE_DELAY"
  shows "settled folder (foldl step s (burst folder evs))
       \<and> clock (foldl step s (burst folder evs)) = clock s + sum_list (map snd evs)"
  using assms
proof (induction evs arbitrary: s)
  case Nil
  then show ?case by simp
next
  case (Cons ev evs)
  obtain fname gap where ev: "ev = (fname, gap)" by (cases ev)
  let ?s1 = "foldl step s (burst folder [(fname, gap)])"
  from Cons.prems ev quiet_gap_keeps_settled [of folder s gap fname]
  have s1: "settled folder ?s1" "clock ?s1 = clock s + gap" by simp_all
  have "foldl step s (burst folder (ev # evs)) = foldl step ?s1 (burst folder evs)"
    by (simp add: ev)
  with Cons.IH [OF s1(1)] Cons.prems(2) s1(2) ev show ?case by simp
qed

lemma last_event_fires_once:
  assumes "settled folder s" "FOLDER_DEBOUNCE_DELAY \<le> gap"
  shows "attempts (foldl step s (burst folder [(fname, gap)])) = [(folder, clock s + FOLDER_DEBOUNCE_DELAY)]"
proof -
  let ?s2 = "step (step s (WatchBegin folder fname)) (WatchEnd folder fname)"
  from event_arms_one_timer [OF assms(1), of fname] obtain tid where
    t: "timers ?s2 = [(tid, folder, clock s + FOLDER_DEBOUNCE_DELAY)]"
       "clock ?s2 = clock s" "attempts ?s2 = []"
    by blast
  have "foldl step s (burst folder [(fname, gap)]) = advance gap ?s2" by simp
  with t assms(2) show ?thesis
    by (simp add: advance_def is_due_def Let_def)
qed

lemma settled_idle: "settled folder idle"
  by (simp add: settled_def idle_def)

text \<open>
  From the idle state, events of one folder that follow each other within the delay
  are answered by a single callback, due one full delay after the last of them.
\<close>

lemma debounce_from_idle:
  assumes "\<forall>ev \<in> set evs. snd ev < FOLDER_DEBOUNCE_DELAY" "FOLDER_DEBOUNCE_DELAY \<le> gap"
  shows "attempts (run (burst folder (evs @ [(fname, gap)])))
           = [(folder, sum_list (map snd evs) + FOLDER_DEBOUNCE_DELAY)]"
proof -
  let ?s = "foldl step idle (burst folder evs)"
  from quiet_burst_keeps_settled [OF settled_idle assms(1)]
  have s: "settled folder ?s" "clock ?s = sum_list (map snd evs)"
    by (simp_all add: idle_def)
  have "run (burst folder (evs @ [(fname, gap)])) = foldl step ?s (burst folder [(fname, gap)])"
    by (simp add: run_def burst_append)
  with last_event_fires_once [OF s(1) assms(2), of fname] s(2) show ?thesis by simp
qed

lemma five_events_one_attempt:
  "attempts (run five_events) = [(''Event1'', 9000)]"
  by (simp add: five_events_def coord_defs)

text \<open>
  C7. From the idle state a burst is answered by one callback, due one full delay after
  its last event. But the \<open>finally\<close> of a callback deletes the folder's map entry
  whichever timer it names. When an event arrives while a callback is running and the
  callback ends before the next event, that next event finds no entry, clears nothing,
  and arms a second timer beside the first: the two events, 1.3 s apart, are answered by
  two callbacks, at 10.2 s and at 11.5 s.
\<close>

theorem debounce_orphan_timer:
  "attempts (run slow_drip) = [(''Event1'', 5000), (''Event1'', 10200), (''Event1'', 11500)]
   \<and> timers (run (take 12 slow_drip)) = [(2, ''Event1'', 10200), (3, ''Event1'', 11500)]"
  by (simp add: slow_drip_def coord_defs)

end
